theory Spec2Isabelle
  imports Complex_Main "HOL-Library.Sublist" "HOL-Library.Word"
begin

section \<open>Host primitives of the JavaScript runtime\<close>

text \<open>
  The program is TypeScript running in a browser. Its own functions are small; most of
  what they do is delegated to the runtime (\<open>String.prototype\<close>, \<open>parseInt\<close>,
  \<open>parseFloat\<close>, \<open>Date\<close>, \<open>JSON.parse\<close>, \<open>DataView\<close>). This section models the runtime
  functions that the verified functions call, following ECMA-262.

  Conventions of the model:
  \<^item> a string is a list of code units, and a code unit is a HOL \<open>char\<close>: the model
    covers the strings whose code units lie in U+0000..U+00FF;
  \<^item> a Number is \<open>NaN\<close>, an infinity or a finite value, and a finite value is a real.
    The sign of zero is not modelled. The operators \<open>add\<close> and \<open>mul\<close> are exact;
    \<open>mul64\<close> is the product rounded to binary64, and stands where the rounding decides
    the integer part that the code takes next (the milliseconds of \<open>formatSrtTime\<close>).
\<close>

subsection \<open>Numbers\<close>

datatype jsnum = NaN | PInf | NInf | Fin real

fun sign_num :: "jsnum \<Rightarrow> int" where
  "sign_num NaN = 0"
| "sign_num PInf = 1"
| "sign_num NInf = -1"
| "sign_num (Fin x) = (if x < 0 then -1 else if x = 0 then 0 else 1)"

text \<open>The operators \<open>+\<close> and \<open>*\<close> on Numbers.\<close>

fun add :: "jsnum \<Rightarrow> jsnum \<Rightarrow> jsnum" where
  "add NaN _ = NaN"
| "add _ NaN = NaN"
| "add (Fin x) (Fin y) = Fin (x + y)"
| "add PInf NInf = NaN"
| "add NInf PInf = NaN"
| "add PInf _ = PInf"
| "add _ PInf = PInf"
| "add NInf _ = NInf"
| "add _ NInf = NInf"

fun mul :: "jsnum \<Rightarrow> jsnum \<Rightarrow> jsnum" where
  "mul NaN _ = NaN"
| "mul _ NaN = NaN"
| "mul (Fin x) (Fin y) = Fin (x * y)"
| "mul a b =
     (if sign_num a * sign_num b = 0 then NaN
      else if 0 < sign_num a * sign_num b then PInf else NInf)"

text \<open>The comparison \<open>a < b\<close>; any comparison with \<open>NaN\<close> is false.\<close>

fun less_num :: "jsnum \<Rightarrow> jsnum \<Rightarrow> bool" where
  "less_num NaN _ = False"
| "less_num _ NaN = False"
| "less_num (Fin x) (Fin y) = (x < y)"
| "less_num NInf b = (b \<noteq> NInf)"
| "less_num a PInf = (a \<noteq> PInf)"
| "less_num _ _ = False"

text \<open>\<open>Math.min\<close> and \<open>Math.max\<close> of two arguments: \<open>NaN\<close> if either is \<open>NaN\<close>.\<close>

definition Math_min :: "jsnum \<Rightarrow> jsnum \<Rightarrow> jsnum" where
  "Math_min a b = (if a = NaN \<or> b = NaN then NaN else if less_num b a then b else a)"

definition Math_max :: "jsnum \<Rightarrow> jsnum \<Rightarrow> jsnum" where
  "Math_max a b = (if a = NaN \<or> b = NaN then NaN else if less_num a b then b else a)"

text \<open>Rounding towards zero, the \<open>truncate\<close> of ECMA-262.\<close>

definition trunc :: "real \<Rightarrow> int" where
  "trunc x = (if 0 \<le> x then \<lfloor>x\<rfloor> else \<lceil>x\<rceil>)"


fun searchDown :: "nat \<Rightarrow> int \<Rightarrow> real \<Rightarrow> int" where
  "searchDown 0 e y = e"
| "searchDown (Suc k) e y = (if 2 powi e \<le> y then e else searchDown k (e - 1) y)"





subsection \<open>Characters\<close>

abbreviation LF :: char where "LF \<equiv> CHR 0x0A"
abbreviation CR :: char where "CR \<equiv> CHR 0x0D"

text \<open>
  White space and line terminators: the characters that \<open>trim\<close>, the regular expression
  class \<open>\s\<close>, \<open>parseInt\<close> and \<open>parseFloat\<close> skip (tab, line feed, vertical tab, form
  feed, carriage return, space, no-break space; the ones above U+00FF are outside the
  model).
\<close>

definition isWhiteSpace :: "char \<Rightarrow> bool" where
  "isWhiteSpace c \<longleftrightarrow>
     c = CHR 0x09 \<or> c = CHR 0x0A \<or> c = CHR 0x0B \<or> c = CHR 0x0C \<or> c = CHR 0x0D \<or>
     c = CHR 0x20 \<or> c = CHR 0xA0"

definition isDigit :: "char \<Rightarrow> bool" where
  "isDigit c \<longleftrightarrow> (48::nat) \<le> of_char c \<and> of_char c \<le> (57::nat)"

definition digitVal :: "char \<Rightarrow> nat" where
  "digitVal c = of_char c - 48"

definition digitChar :: "nat \<Rightarrow> char" where
  "digitChar d = char_of (48 + d)"

text \<open>The value of a string of decimal digits, most significant digit first.\<close>

definition digitsVal :: "string \<Rightarrow> nat" where
  "digitsVal ds = foldl (\<lambda>a c. 10 * a + digitVal c) 0 ds"

subsection \<open>Strings\<close>

text \<open>\<open>s.trim()\<close>.\<close>

definition trim :: "string \<Rightarrow> string" where
  "trim s = rev (dropWhile isWhiteSpace (rev (dropWhile isWhiteSpace s)))"

text \<open>\<open>s.indexOf(pat)\<close> and \<open>s.lastIndexOf(pat)\<close>; \<open>-1\<close> when \<open>pat\<close> does not occur.\<close>

fun indexOf :: "string \<Rightarrow> string \<Rightarrow> int" where
  "indexOf [] pat = (if pat = [] then 0 else -1)"
| "indexOf (c # cs) pat =
     (if prefix pat (c # cs) then 0
      else let r = indexOf cs pat in if r < 0 then -1 else r + 1)"

fun lastIndexOf :: "string \<Rightarrow> string \<Rightarrow> int" where
  "lastIndexOf [] pat = (if pat = [] then 0 else -1)"
| "lastIndexOf (c # cs) pat =
     (let r = lastIndexOf cs pat
      in if 0 \<le> r then r + 1 else if prefix pat (c # cs) then 0 else -1)"

text \<open>\<open>s.includes(pat)\<close>.\<close>

definition includesStr :: "string \<Rightarrow> string \<Rightarrow> bool" where
  "includesStr s pat \<longleftrightarrow> 0 \<le> indexOf s pat"

text \<open>
  \<open>s.substring(a, b)\<close>: both indices are clamped to the string and swapped when
  \<open>a > b\<close>.
\<close>

definition substring :: "string \<Rightarrow> int \<Rightarrow> int \<Rightarrow> string" where
  "substring s a b =
     (let n = int (length s);
          a' = max 0 (min a n);
          b' = max 0 (min b n);
          lo = min a' b';
          hi = max a' b'
      in take (nat (hi - lo)) (drop (nat lo) s))"

text \<open>
  \<open>s.replace(pat, rep)\<close> with a string pattern: only the first occurrence is replaced.
  (The replacement strings of the program contain no \<open>$\<close> pattern.)
\<close>

fun replace :: "string \<Rightarrow> string \<Rightarrow> string \<Rightarrow> string" where
  "replace [] pat rep = (if pat = [] then rep else [])"
| "replace (c # cs) pat rep =
     (if prefix pat (c # cs) then rep @ drop (length pat) (c # cs)
      else c # replace cs pat rep)"

text \<open>
  \<open>s.split(sep)\<close>. \<open>breakOn sep s\<close> cuts \<open>s\<close> at the first occurrence of \<open>sep\<close> into
  the text before it and the text after it.
\<close>

fun breakOn :: "string \<Rightarrow> string \<Rightarrow> (string \<times> string) option" where
  "breakOn sep [] = (if sep = [] then Some ([], []) else None)"
| "breakOn sep (c # cs) =
     (if prefix sep (c # cs) then Some ([], drop (length sep) (c # cs))
      else map_option (\<lambda>(a, b). (c # a, b)) (breakOn sep cs))"

function split :: "string \<Rightarrow> string \<Rightarrow> string list" where
  "split s sep =
     (if sep = [] then map (\<lambda>c. [c]) s
      else case breakOn sep s of
             None \<Rightarrow> [s]
           | Some (a, b) \<Rightarrow> a # split b sep)"
  by pat_completeness auto
termination
proof (relation "measure (\<lambda>(s, sep). length s)")
  show "wf (measure (\<lambda>(s, sep). length s))" by simp
next
  fix s sep :: string and x2 a b
  assume sep: "sep \<noteq> []" and br: "breakOn sep s = Some x2" and x2: "(a, b) = x2"
  have "breakOn sep t = Some (u, v) \<Longrightarrow> length v < length t" for t u v
  proof (induction t arbitrary: u)
    case Nil
    with sep show ?case by simp
  next
    case (Cons c cs)
    show ?case
    proof (cases "prefix sep (c # cs)")
      case True
      with Cons.prems sep show ?thesis by (cases sep) auto
    next
      case False
      with Cons.prems obtain u' where "breakOn sep cs = Some (u', v)" by auto
      from Cons.IH [OF this] show ?thesis by simp
    qed
  qed
  with br x2 show "((b, sep), (s, sep)) \<in> measure (\<lambda>(s, sep). length s)" by auto
qed

text \<open>\<open>parts.join(sep)\<close>.\<close>

fun join :: "string list \<Rightarrow> string \<Rightarrow> string" where
  "join [] sep = []"
| "join [x] sep = x"
| "join (x # y # ys) sep = x @ sep @ join (y # ys) sep"


subsection \<open>Parsing and printing numbers\<close>

text \<open>
  \<open>parseInt(s, 10)\<close>: skip leading white space, read an optional sign, then the longest
  run of decimal digits; \<open>NaN\<close> when that run is empty.
\<close>

definition stripSign :: "string \<Rightarrow> real \<times> string" where
  "stripSign s =
     (case s of
        [] \<Rightarrow> (1, [])
      | c # cs \<Rightarrow> if c = CHR ''-'' then (-1, cs) else if c = CHR ''+'' then (1, cs) else (1, c # cs))"

definition parseInt :: "string \<Rightarrow> jsnum" where
  "parseInt s =
     (let (sign, S) = stripSign (dropWhile isWhiteSpace s);
          Z = takeWhile isDigit S
      in if Z = [] then NaN else Fin (sign * real (digitsVal Z)))"

text \<open>
  \<open>parseFloat(s)\<close>: skip leading white space, then take the longest prefix that is a
  \<open>StrDecimalLiteral\<close>: an optional sign followed by \<open>Infinity\<close> or by digits with an
  optional fraction and an optional exponent (\<open>12\<close>, \<open>12.\<close>, \<open>12.5\<close>, \<open>.5\<close>, \<open>1e3\<close>).
  \<open>NaN\<close> when no prefix is one.
\<close>

definition pow10 :: "int \<Rightarrow> real" where
  "pow10 e = (if 0 \<le> e then 10 ^ nat e else 1 / 10 ^ nat (- e))"

definition exponentPart :: "string \<Rightarrow> int" where
  "exponentPart s =
     (case s of
        [] \<Rightarrow> 0
      | c # cs \<Rightarrow>
          if c = CHR ''e'' \<or> c = CHR ''E'' then
            (let (sign, ds) = stripSign cs; Z = takeWhile isDigit ds
             in if Z = [] then 0 else (if sign < 0 then - int (digitsVal Z) else int (digitsVal Z)))
          else 0)"

definition parseFloat :: "string \<Rightarrow> jsnum" where
  "parseFloat s =
     (let (sign, u) = stripSign (dropWhile isWhiteSpace s)
      in if prefix ''Infinity'' u then (if sign < 0 then NInf else PInf)
         else
           let ip = takeWhile isDigit u;
               r1 = dropWhile isDigit u;
               (fp, r2) = (case r1 of
                             [] \<Rightarrow> ([], [])
                           | c # cs \<Rightarrow> if c = CHR ''.''
                                       then (takeWhile isDigit cs, dropWhile isDigit cs)
                                       else ([], r1))
           in if ip = [] \<and> fp = [] then NaN
              else Fin (sign * (real (digitsVal ip) + real (digitsVal fp) / 10 ^ length fp)
                          * pow10 (exponentPart r2)))"

text \<open>\<open>n.toString()\<close> for an integer \<open>n\<close>.\<close>

fun natToString :: "nat \<Rightarrow> string" where
  "natToString n =
     (if n < 10 then [digitChar n] else natToString (n div 10) @ [digitChar (n mod 10)])"

declare natToString.simps [simp del]
declare split.simps [simp del]


section \<open>Time utilities\<close>

text \<open>
  \<open>parseTimeString\<close>: an empty string is falsy and gives 0. Otherwise the first comma
  becomes a period, the string is split on \<open>:\<close>, and three parts are read as hours,
  minutes and seconds, two parts as minutes and seconds. With any other number of parts
  no branch is taken and the initial value 0 is returned.
\<close>

definition parseTimeString :: "string \<Rightarrow> jsnum" where
  "parseTimeString timeString =
     (if timeString = [] then Fin 0
      else
        let normalized = replace timeString '','' ''.'';
            parts = split normalized '':'';
            seconds = Fin 0
        in if length parts = 3 then
             (let seconds = add seconds (mul (parseInt (parts ! 0)) (Fin 3600));
                  seconds = add seconds (mul (parseInt (parts ! 1)) (Fin 60));
                  seconds = add seconds (parseFloat (parts ! 2))
              in seconds)
           else if length parts = 2 then
             (let seconds = add seconds (mul (parseInt (parts ! 0)) (Fin 60));
                  seconds = add seconds (parseFloat (parts ! 1))
              in seconds)
           else seconds)"








text \<open>A non-empty string of decimal digits.\<close>

definition allDigits :: "string \<Rightarrow> bool" where
  "allDigits s \<longleftrightarrow> s \<noteq> [] \<and> list_all isDigit s"

section \<open>Transcript interpreter\<close>

subsection \<open>Recovering the payload\<close>

text \<open>
  The first match of the regular expression
  \<^verbatim>\<open>/```(?:json)?\s*([\s\S]*?)\s*```/\<close> in \<open>s\<close>, as its capture group 1; \<open>None\<close> when
  there is no match.

  A match can only start at the first occurrence of the fence: what follows the opening
  fence up to the start of the group (an optional \<open>json\<close>, then white space) holds no
  backquote, so a later start finds no closing fence that the first start does not find.
  The optional \<open>json\<close> and the white space after it are greedy, and giving either back
  never helps, so the group starts after them. The group is lazy: it ends at the first
  position from which white space and then a fence follow.
\<close>

fun lazyCapture :: "string \<Rightarrow> string option" where
  "lazyCapture [] = None"
| "lazyCapture (c # cs) =
     (if prefix ''```'' (dropWhile isWhiteSpace (c # cs)) then Some []
      else map_option ((#) c) (lazyCapture cs))"

definition fenceMatch :: "string \<Rightarrow> string option" where
  "fenceMatch s =
     (let i = indexOf s ''```''
      in if i < 0 then None
         else
           let r1 = drop (nat i + 3) s;
               r2 = (if prefix ''json'' r1 then drop 4 r1 else r1)
           in lazyCapture (dropWhile isWhiteSpace r2))"

text \<open>
  The first statements of \<open>sanitizeAndRepairJson\<close>: the text is trimmed, and when it
  holds a fenced block with a non-empty content, the trimmed content replaces it.
\<close>

definition stripFence :: "string \<Rightarrow> string" where
  "stripFence text =
     (let clean = trim text
      in if includesStr clean ''```'' then
           (case fenceMatch clean of
              None \<Rightarrow> clean
            | Some m \<Rightarrow> if m \<noteq> [] then trim m else clean)
         else clean)"

definition sanitizeAndRepairJson :: "string \<Rightarrow> string" where
  "sanitizeAndRepairJson text =
     (let clean = stripFence text;
          firstBracket = indexOf clean ''[''
      in if firstBracket = -1 then ''[]''
         else
           let lastBracket = lastIndexOf clean '']''
           in if lastBracket = -1 \<or> lastBracket < firstBracket then
                (let lastValidClosingBrace = lastIndexOf clean ''}''
                 in if lastValidClosingBrace \<noteq> -1 \<and> lastValidClosingBrace > firstBracket
                    then substring clean firstBracket (lastValidClosingBrace + 1) @ '']''
                    else ''[]'')
              else substring clean firstBracket (lastBracket + 1))"

subsection \<open>\<open>JSON.parse\<close>\<close>

text \<open>
  A JavaScript value as far as the interpreter meets one: what \<open>JSON.parse\<close> returns, and
  \<open>undefined\<close> for a property that an object does not have.
\<close>

datatype jsval =
    JUndefined
  | JNull
  | JBool bool
  | JNum real
  | JStr string
  | JArr "jsval list"
  | JObj "(string \<times> jsval) list"

abbreviation DQ :: char where "DQ \<equiv> CHR 0x22"
abbreviation BSL :: char where "BSL \<equiv> CHR 0x5C"

definition isJsonWs :: "char \<Rightarrow> bool" where
  "isJsonWs c \<longleftrightarrow> c = CHR 0x20 \<or> c = CHR 0x09 \<or> c = CHR 0x0A \<or> c = CHR 0x0D"

definition skipWs :: "string \<Rightarrow> string" where
  "skipWs s = dropWhile isJsonWs s"

definition hexVal :: "char \<Rightarrow> nat option" where
  "hexVal c =
     (let n = (of_char c :: nat)
      in if 48 \<le> n \<and> n \<le> 57 then Some (n - 48)
         else if 65 \<le> n \<and> n \<le> 70 then Some (n - 55)
         else if 97 \<le> n \<and> n \<le> 102 then Some (n - 87)
         else None)"

definition hex4 :: "char \<Rightarrow> char \<Rightarrow> char \<Rightarrow> char \<Rightarrow> nat option" where
  "hex4 a b c d =
     (case (hexVal a, hexVal b, hexVal c, hexVal d) of
        (Some w, Some x, Some y, Some z) \<Rightarrow> Some (4096 * w + 256 * x + 16 * y + z)
      | _ \<Rightarrow> None)"

definition escapeChar :: "char \<Rightarrow> char option" where
  "escapeChar e =
     (if e = DQ then Some DQ
      else if e = BSL then Some BSL
      else if e = CHR ''/'' then Some (CHR ''/'')
      else if e = CHR ''b'' then Some (CHR 0x08)
      else if e = CHR ''f'' then Some (CHR 0x0C)
      else if e = CHR ''n'' then Some (CHR 0x0A)
      else if e = CHR ''r'' then Some (CHR 0x0D)
      else if e = CHR ''t'' then Some (CHR 0x09)
      else None)"

text \<open>
  A string, read from after its opening quote: its characters and the input left after the
  closing quote. A \<^verbatim>\<open>\u\<close> escape above U+00FF is outside the model and is rejected here.
\<close>

fun parseStringBody :: "string \<Rightarrow> (string \<times> string) option" where
  "parseStringBody [] = None"
| "parseStringBody (c # cs) =
     (if c = DQ then Some ([], cs)
      else if c = BSL then
        (case cs of
           [] \<Rightarrow> None
         | e # r \<Rightarrow>
             if e = CHR ''u'' then
               (case r of
                  h1 # h2 # h3 # h4 # r' \<Rightarrow>
                    (case hex4 h1 h2 h3 h4 of
                       None \<Rightarrow> None
                     | Some n \<Rightarrow>
                         if n < 256
                         then map_option (\<lambda>(s, t). (char_of n # s, t)) (parseStringBody r')
                         else None)
                | _ \<Rightarrow> None)
             else
               (case escapeChar e of
                  None \<Rightarrow> None
                | Some x \<Rightarrow> map_option (\<lambda>(s, t). (x # s, t)) (parseStringBody r)))
      else if (of_char c :: nat) < 32 then None
      else map_option (\<lambda>(s, t). (c # s, t)) (parseStringBody cs))"

text \<open>A number: \<open>-? (0 | [1-9][0-9]*) (. [0-9]+)? ([eE] [+-]? [0-9]+)?\<close>.\<close>

definition parseNumber :: "string \<Rightarrow> (real \<times> string) option" where
  "parseNumber s =
     (let (sign, s1) = (case s of
                          [] \<Rightarrow> (1, [])
                        | c # cs \<Rightarrow> if c = CHR ''-'' then (-1, cs) else (1::real, c # cs));
          ip = takeWhile isDigit s1;
          r1 = dropWhile isDigit s1
      in if ip = [] \<or> (1 < length ip \<and> hd ip = CHR ''0'') then None
         else
           (case (case r1 of
                    [] \<Rightarrow> Some ([], [])
                  | c # cs \<Rightarrow>
                      if c = CHR ''.''
                      then (if takeWhile isDigit cs = [] then None
                            else Some (takeWhile isDigit cs, dropWhile isDigit cs))
                      else Some ([], r1)) of
              None \<Rightarrow> None
            | Some (fp, r2) \<Rightarrow>
                (case (case r2 of
                         [] \<Rightarrow> Some (0, [])
                       | c # cs \<Rightarrow>
                           if c = CHR ''e'' \<or> c = CHR ''E'' then
                             (let (esign, ds) = stripSign cs; Z = takeWhile isDigit ds
                              in if Z = [] then None
                                 else Some (if esign < 0 then - int (digitsVal Z)
                                            else int (digitsVal Z), dropWhile isDigit ds))
                           else Some (0, r2)) of
                   None \<Rightarrow> None
                 | Some (e, r3) \<Rightarrow>
                     Some (sign * (real (digitsVal ip) + real (digitsVal fp) / 10 ^ length fp)
                             * pow10 e, r3))))"

text \<open>
  The recursive descent over values, array elements and object members. The first
  argument bounds the depth of the calls; each call that does not consume input is
  followed by one that does, so \<open>2 * length s + 2\<close> is enough for an input \<open>s\<close>.
  \<open>parseElements\<close> reads \<open>value (, value)* ]\<close> and \<open>parseMembers\<close> reads
  \<open>string : value (, string : value)* }\<close>.
\<close>

fun parseValue :: "nat \<Rightarrow> string \<Rightarrow> (jsval \<times> string) option"
  and parseElements :: "nat \<Rightarrow> string \<Rightarrow> (jsval list \<times> string) option"
  and parseMembers :: "nat \<Rightarrow> string \<Rightarrow> ((string \<times> jsval) list \<times> string) option"
where
  "parseValue 0 s = None"
| "parseValue (Suc n) s =
     (case skipWs s of
        [] \<Rightarrow> None
      | c # cs \<Rightarrow>
          if c = CHR ''['' then
            (case skipWs cs of
               [] \<Rightarrow> None
             | d # r \<Rightarrow> if d = CHR '']'' then Some (JArr [], r)
                        else map_option (\<lambda>(vs, t). (JArr vs, t)) (parseElements n cs))
          else if c = CHR ''{'' then
            (case skipWs cs of
               [] \<Rightarrow> None
             | d # r \<Rightarrow> if d = CHR ''}'' then Some (JObj [], r)
                        else map_option (\<lambda>(kvs, t). (JObj kvs, t)) (parseMembers n cs))
          else if c = DQ then map_option (\<lambda>(x, t). (JStr x, t)) (parseStringBody cs)
          else if prefix ''true'' (c # cs) then Some (JBool True, drop 4 (c # cs))
          else if prefix ''false'' (c # cs) then Some (JBool False, drop 5 (c # cs))
          else if prefix ''null'' (c # cs) then Some (JNull, drop 4 (c # cs))
          else map_option (\<lambda>(x, t). (JNum x, t)) (parseNumber (c # cs)))"
| "parseElements 0 s = None"
| "parseElements (Suc n) s =
     (case parseValue n s of
        None \<Rightarrow> None
      | Some (v, r) \<Rightarrow>
          (case skipWs r of
             [] \<Rightarrow> None
           | d # r' \<Rightarrow>
               if d = CHR '','' then map_option (\<lambda>(vs, t). (v # vs, t)) (parseElements n r')
               else if d = CHR '']'' then Some ([v], r')
               else None))"
| "parseMembers 0 s = None"
| "parseMembers (Suc n) s =
     (case skipWs s of
        [] \<Rightarrow> None
      | q # cs \<Rightarrow>
          if q \<noteq> DQ then None
          else
            (case parseStringBody cs of
               None \<Rightarrow> None
             | Some (k, r) \<Rightarrow>
                 (case skipWs r of
                    [] \<Rightarrow> None
                  | col # r1 \<Rightarrow>
                      if col \<noteq> CHR '':'' then None
                      else
                        (case parseValue n r1 of
                           None \<Rightarrow> None
                         | Some (v, r2) \<Rightarrow>
                             (case skipWs r2 of
                                [] \<Rightarrow> None
                              | d # r3 \<Rightarrow>
                                  if d = CHR '','' then
                                    map_option (\<lambda>(kvs, t). ((k, v) # kvs, t)) (parseMembers n r3)
                                  else if d = CHR ''}'' then Some ([(k, v)], r3)
                                  else None)))))"

text \<open>\<open>JSON.parse(s)\<close>: the value, or \<open>None\<close> where the runtime throws a \<open>SyntaxError\<close>.\<close>

definition JSON_parse :: "string \<Rightarrow> jsval option" where
  "JSON_parse s =
     (case parseValue (2 * length s + 2) s of
        None \<Rightarrow> None
      | Some (v, r) \<Rightarrow> if skipWs r = [] then Some v else None)"

subsection \<open>From the response to segments\<close>

text \<open>
  What a \<open>throw\<close> carries: an \<open>Error\<close> with its message, or an error of the runtime or
  of a browser interface.
\<close>

datatype exn = Error string | SyntaxError | TypeError | RangeError | NotSupportedError

record 'a SubtitleSegment =
  id_seg :: string
  startTime :: jsnum
  endTime :: jsnum
  text_seg :: 'a

text \<open>
  The type annotations of the program are not checked when it runs: \<open>JSON.parse\<close> may
  return any value where the program expects an array of records with string fields.
  The following functions say what the operations of \<open>generateSubtitles\<close> do on any value.

  \<open>v.length\<close>: reading a property of \<open>null\<close> or \<open>undefined\<close> throws a \<open>TypeError\<close>.
  A repeated key of an object holds its last value.
\<close>

definition getLength :: "jsval \<Rightarrow> exn + jsval" where
  "getLength v =
     (case v of
        JUndefined \<Rightarrow> Inl TypeError
      | JNull \<Rightarrow> Inl TypeError
      | JArr xs \<Rightarrow> Inr (JNum (real (length xs)))
      | JStr s \<Rightarrow> Inr (JNum (real (length s)))
      | JObj kvs \<Rightarrow> Inr (case map_of (rev kvs) ''length'' of None \<Rightarrow> JUndefined | Some x \<Rightarrow> x)
      | _ \<Rightarrow> Inr JUndefined)"

text \<open>\<open>item.k\<close> for one of the names \<open>start\<close>, \<open>end\<close>, \<open>text\<close>, which no prototype defines.\<close>

definition getField :: "jsval \<Rightarrow> string \<Rightarrow> exn + jsval" where
  "getField v k =
     (case v of
        JUndefined \<Rightarrow> Inl TypeError
      | JNull \<Rightarrow> Inl TypeError
      | JObj kvs \<Rightarrow> Inr (case map_of (rev kvs) k of None \<Rightarrow> JUndefined | Some x \<Rightarrow> x)
      | _ \<Rightarrow> Inr JUndefined)"

text \<open>
  \<open>parseTimeString\<close> called with any value: a falsy value gives 0 at the first statement;
  a string is parsed; any other value has no method \<open>replace\<close>, and the call throws.
\<close>

definition falsy :: "jsval \<Rightarrow> bool" where
  "falsy v \<longleftrightarrow> v = JUndefined \<or> v = JNull \<or> v = JBool False \<or> v = JNum 0 \<or> v = JStr []"

definition parseTimeString_any :: "jsval \<Rightarrow> exn + jsnum" where
  "parseTimeString_any v =
     (if falsy v then Inr (Fin 0)
      else case v of JStr s \<Rightarrow> Inr (parseTimeString s) | _ \<Rightarrow> Inl TypeError)"

text \<open>
  The callback of \<open>parsedItems.map\<close>. \<open>crypto.randomUUID()\<close> is modelled by a supply
  \<open>ids\<close> of identifiers: the record made from the item at index \<open>k\<close> gets \<open>ids k\<close>.
\<close>

definition itemToSegment :: "(nat \<Rightarrow> string) \<Rightarrow> nat \<Rightarrow> jsval \<Rightarrow> exn + jsval SubtitleSegment" where
  "itemToSegment ids k item =
     (case getField item ''start'' of
        Inl e \<Rightarrow> Inl e
      | Inr st \<Rightarrow>
          (case parseTimeString_any st of
             Inl e \<Rightarrow> Inl e
           | Inr a \<Rightarrow>
               (case getField item ''end'' of
                  Inl e \<Rightarrow> Inl e
                | Inr en \<Rightarrow>
                    (case parseTimeString_any en of
                       Inl e \<Rightarrow> Inl e
                     | Inr b \<Rightarrow>
                         (case getField item ''text'' of
                            Inl e \<Rightarrow> Inl e
                          | Inr t \<Rightarrow>
                              Inr \<lparr>id_seg = ids k, startTime = a, endTime = b, text_seg = t\<rparr>)))))"

fun mapItems :: "(nat \<Rightarrow> string) \<Rightarrow> nat \<Rightarrow> jsval list \<Rightarrow> exn + jsval SubtitleSegment list" where
  "mapItems ids k [] = Inr []"
| "mapItems ids k (item # items) =
     (case itemToSegment ids k item of
        Inl e \<Rightarrow> Inl e
      | Inr seg \<Rightarrow>
          (case mapItems ids (Suc k) items of
             Inl e \<Rightarrow> Inl e
           | Inr segs \<Rightarrow> Inr (seg # segs)))"

text \<open>
  The body of the inner \<open>try\<close> of \<open>generateSubtitles\<close>: parse, throw on an empty list,
  map. Only an array has a method \<open>map\<close>.
\<close>

definition parseItems :: "(nat \<Rightarrow> string) \<Rightarrow> string \<Rightarrow> exn + jsval SubtitleSegment list" where
  "parseItems ids jsonText =
     (case JSON_parse jsonText of
        None \<Rightarrow> Inl SyntaxError
      | Some parsedItems \<Rightarrow>
          (case getLength parsedItems of
             Inl e \<Rightarrow> Inl e
           | Inr len \<Rightarrow>
               if len = JNum 0 then Inl (Error ''No speech detected.'')
               else (case parsedItems of
                       JArr items \<Rightarrow> mapItems ids 0 items
                     | _ \<Rightarrow> Inl TypeError)))"

text \<open>
  \<open>generateSubtitles\<close>, from the environment's API key and the outcome of the remote
  call (the text of the response, or what the call threw). The inner \<open>catch\<close> replaces
  whatever the inner \<open>try\<close> threw; the outer \<open>catch\<close> logs and rethrows.
\<close>

definition generateSubtitles ::
  "(nat \<Rightarrow> string) \<Rightarrow> string \<Rightarrow> exn + string \<Rightarrow> exn + jsval SubtitleSegment list" where
  "generateSubtitles ids apiKey response =
     (if apiKey = [] then Inl (Error ''API Key is missing.'')
      else
        (case response of
           Inl e \<Rightarrow> Inl e
         | Inr rawText \<Rightarrow>
             if rawText = [] then Inl (Error ''The AI model returned an empty response.'')
             else
               let jsonText = sanitizeAndRepairJson rawText
               in (case parseItems ids jsonText of
                     Inl parseError \<Rightarrow>
                       Inl (Error ''Failed to parse AI response. The file might be too complex or contain noise.'')
                   | Inr segments \<Rightarrow> Inr segments)))"

section \<open>Subtitle file codec\<close>


text \<open>The two global replacements that normalise line endings.\<close>

fun replaceCRLF :: "string \<Rightarrow> string" where
  "replaceCRLF [] = []"
| "replaceCRLF [c] = [c]"
| "replaceCRLF (c # d # cs) =
     (if c = CR \<and> d = LF then LF # replaceCRLF cs else c # replaceCRLF (d # cs))"

definition replaceCR :: "string \<Rightarrow> string" where
  "replaceCR s = map (\<lambda>c. if c = CR then LF else c) s"

text \<open>
  An element taken from an array by destructuring is \<open>undefined\<close> (\<open>None\<close>) beyond the end
  of the array; \<open>undefined\<close> and the empty string are falsy.
\<close>

definition nthOpt :: "'a list \<Rightarrow> nat \<Rightarrow> 'a option" where
  "nthOpt xs i = (if i < length xs then Some (xs ! i) else None)"

definition truthyStr :: "string option \<Rightarrow> bool" where
  "truthyStr v = (case v of None \<Rightarrow> False | Some s \<Rightarrow> s \<noteq> [])"

text \<open>
  The callback of \<open>blocks.forEach\<close>, as a function from the array \<open>segments\<close> before the
  call to the array after it. Every push calls \<open>crypto.randomUUID()\<close> once, so the record
  pushed onto \<open>k\<close> earlier records gets the identifier \<open>ids k\<close> of the supply.
\<close>

definition parseSrtBlock ::
  "(nat \<Rightarrow> string) \<Rightarrow> string SubtitleSegment list \<Rightarrow> string \<Rightarrow> string SubtitleSegment list" where
  "parseSrtBlock ids segments block =
     (let lines = split (trim block) [LF]
      in if 3 \<le> length lines then
           (let timecode = lines ! 1;
                parts = split timecode '' --> '';
                startStr = nthOpt parts 0;
                endStr = nthOpt parts 1;
                text = join (drop 2 lines) '' ''
            in if truthyStr startStr \<and> truthyStr endStr then
                 segments @ [\<lparr>id_seg = ids (length segments),
                               startTime = parseTimeString (the startStr),
                               endTime = parseTimeString (the endStr),
                               text_seg = text\<rparr>]
               else segments)
         else segments)"

definition parseSrt :: "(nat \<Rightarrow> string) \<Rightarrow> string \<Rightarrow> string SubtitleSegment list" where
  "parseSrt ids srtContent =
     (let normalized = replaceCR (replaceCRLF srtContent);
          blocks = split normalized [LF, LF]
      in foldl (parseSrtBlock ids) [] blocks)"

text \<open>
  The description of \<open>parseSrt\<close> block by block: the lines of a block, whether a block
  gives a record, and the times and text of that record.
\<close>

definition blockLines :: "string \<Rightarrow> string list" where
  "blockLines block = split (trim block) [LF]"

definition blockTimes :: "string \<Rightarrow> string list" where
  "blockTimes block = split (blockLines block ! 1) '' --> ''"

definition blockAccepted :: "string \<Rightarrow> bool" where
  "blockAccepted block \<longleftrightarrow>
     3 \<le> length (blockLines block) \<and> 2 \<le> length (blockTimes block) \<and>
     blockTimes block ! 0 \<noteq> [] \<and> blockTimes block ! 1 \<noteq> []"

definition blockRecord :: "string \<Rightarrow> jsnum \<times> jsnum \<times> string" where
  "blockRecord block =
     (parseTimeString (blockTimes block ! 0), parseTimeString (blockTimes block ! 1),
      join (drop 2 (blockLines block)) '' '')"

definition segmentFields :: "'a SubtitleSegment \<Rightarrow> jsnum \<times> jsnum \<times> 'a" where
  "segmentFields seg = (startTime seg, endTime seg, text_seg seg)"




section \<open>Audio normalizer\<close>

subsection \<open>\<open>DataView\<close> on a byte buffer\<close>

type_synonym byte = "8 word"

text \<open>
  The setters of a \<open>DataView\<close> over the whole buffer, little-endian. A write beyond the
  end of the buffer throws a \<open>RangeError\<close> (\<open>None\<close>). The value is reduced modulo the
  width of the field.
\<close>

definition setUint8 :: "nat \<Rightarrow> int \<Rightarrow> byte list \<Rightarrow> byte list option" where
  "setUint8 off v buf =
     (if off + 1 \<le> length buf then Some (buf[off := word_of_int v]) else None)"

definition setUint16 :: "nat \<Rightarrow> int \<Rightarrow> byte list \<Rightarrow> byte list option" where
  "setUint16 off v buf =
     (if off + 2 \<le> length buf
      then Some (buf[off := word_of_int v, off + 1 := word_of_int (v div 256)])
      else None)"

definition setUint32 :: "nat \<Rightarrow> int \<Rightarrow> byte list \<Rightarrow> byte list option" where
  "setUint32 off v buf =
     (if off + 4 \<le> length buf
      then Some (buf[off := word_of_int v, off + 1 := word_of_int (v div 256),
                     off + 2 := word_of_int (v div 65536),
                     off + 3 := word_of_int (v div 16777216)])
      else None)"

text \<open>
  \<open>ToInt16\<close> of a Number: \<open>NaN\<close> and the infinities give 0; a finite value is truncated
  and reduced modulo \<open>2^16\<close>.
\<close>

definition toInt16 :: "jsnum \<Rightarrow> 16 word" where
  "toInt16 v = (case v of Fin x \<Rightarrow> word_of_int (trunc x) | _ \<Rightarrow> 0)"







subsection \<open>Encoding the samples\<close>

text \<open>
  The value written for a sample \<open>x\<close>: \<open>s = Math.max(-1, Math.min(1, x))\<close>, then
  \<open>s < 0 ? s * 0x8000 : s * 0x7FFF\<close>. The samples are 32-bit floats, so both products
  are exact in binary64.
\<close>

definition sampleValue :: "jsnum \<Rightarrow> jsnum" where
  "sampleValue x =
     (let s = Math_max (Fin (- 1)) (Math_min (Fin 1) x)
      in if less_num s (Fin 0) then mul s (Fin 32768) else mul s (Fin 32767))"



subsection \<open>The bytes of the container\<close>




subsection \<open>Transport encoding\<close>





subsection \<open>From the decoded audio to the container\<close>



section \<open>Properties of the time utilities\<close>

subsection \<open>Digits and numbers\<close>

lemma isDigit_not_special:
  "isDigit c \<Longrightarrow> c \<noteq> CHR '':'' \<and> c \<noteq> CHR '','' \<and> c \<noteq> CHR ''.'' \<and> c \<noteq> CHR ''+'' \<and> c \<noteq> CHR ''-''
     \<and> c \<noteq> CHR '' '' \<and> c \<noteq> LF \<and> c \<noteq> CR \<and> c \<noteq> CHR ''I'' \<and> \<not> isWhiteSpace c"
  by (auto simp: isDigit_def isWhiteSpace_def)






lemma length_natToString_2: "n < 100 \<Longrightarrow> length (natToString n) \<le> 2"
  by (simp add: natToString.simps [of n] natToString.simps [of "n div 10"])







lemma breakOn_char_absent: "c \<notin> set a \<Longrightarrow> breakOn [c] a = None"
  by (induction a) auto

lemma breakOn_char_first: "c \<notin> set a \<Longrightarrow> breakOn [c] (a @ c # b) = Some (a, b)"
  by (induction a) auto

lemma split_char_absent: "c \<notin> set a \<Longrightarrow> split a [c] = [a]"
  by (simp add: split.simps [of a] breakOn_char_absent)

lemma split_char_first: "c \<notin> set a \<Longrightarrow> split (a @ c # b) [c] = a # split b [c]"
  by (simp add: split.simps [of "a @ c # b"] breakOn_char_first)

lemma replace_char_absent: "c \<notin> set a \<Longrightarrow> replace a [c] rep = a"
  by (induction a) auto

lemma replace_char_first: "c \<notin> set a \<Longrightarrow> replace (a @ c # b) [c] rep = a @ rep @ b"
  by (induction a) auto

lemma allDigits_set: "allDigits s \<Longrightarrow> c \<in> set s \<Longrightarrow> isDigit c"
  by (simp add: allDigits_def list_all_iff)

lemma allDigits_notin:
  assumes "allDigits s"
  shows "CHR '':'' \<notin> set s" and "CHR '','' \<notin> set s" and "CHR ''.'' \<notin> set s"
    and "CHR '' '' \<notin> set s" and "LF \<notin> set s" and "CR \<notin> set s"
  using allDigits_set [OF assms] isDigit_not_special by blast+

lemma takeWhile_digits_append:
  "allDigits s \<Longrightarrow> \<not> isDigit c \<Longrightarrow> takeWhile isDigit (s @ c # r) = s"
  by (simp add: allDigits_def list_all_iff takeWhile_append2)

lemma dropWhile_digits_append:
  "allDigits s \<Longrightarrow> \<not> isDigit c \<Longrightarrow> dropWhile isDigit (s @ c # r) = c # r"
  by (simp add: allDigits_def list_all_iff dropWhile_append2)

lemma takeWhile_digits: "allDigits s \<Longrightarrow> takeWhile isDigit s = s"
  by (simp add: allDigits_def list_all_iff)

lemma dropWhile_digits: "allDigits s \<Longrightarrow> dropWhile isDigit s = []"
  by (simp add: allDigits_def list_all_iff)

lemma allDigits_head: "allDigits s \<Longrightarrow> \<exists>c cs. s = c # cs \<and> isDigit c"
  by (cases s) (auto simp: allDigits_def)

lemma dropWhile_ws_digits: "allDigits s \<Longrightarrow> dropWhile isWhiteSpace (s @ r) = s @ r"
  using allDigits_head [of s] isDigit_not_special by fastforce

lemma stripSign_digits: "allDigits s \<Longrightarrow> stripSign (s @ r) = (1, s @ r)"
  using allDigits_head [of s] isDigit_not_special by (fastforce simp: stripSign_def)

lemma parseInt_digits: "allDigits s \<Longrightarrow> parseInt s = Fin (real (digitsVal s))"
  using dropWhile_ws_digits [of s "[]"] stripSign_digits [of s "[]"]
  by (simp add: parseInt_def takeWhile_digits allDigits_def)

lemma not_prefix_Infinity: "allDigits s \<Longrightarrow> \<not> prefix ''Infinity'' (s @ r)"
  using allDigits_head [of s] isDigit_not_special by fastforce

lemma parseFloat_fraction:
  assumes s: "allDigits s" and f: "allDigits f"
  shows "parseFloat (s @ CHR ''.'' # f) = Fin (real (digitsVal s) + real (digitsVal f) / 10 ^ length f)"
proof -
  have nd: "\<not> isDigit (CHR ''.'')" by (simp add: isDigit_def)
  have "dropWhile isWhiteSpace (s @ CHR ''.'' # f) = s @ CHR ''.'' # f"
    by (rule dropWhile_ws_digits [OF s])
  moreover have "stripSign (s @ CHR ''.'' # f) = (1, s @ CHR ''.'' # f)"
    by (rule stripSign_digits [OF s])
  moreover have "s \<noteq> []" using s by (simp add: allDigits_def)
  ultimately show ?thesis
    using not_prefix_Infinity [OF s, of "CHR ''.'' # f"]
    by (simp add: parseFloat_def takeWhile_digits_append [OF s nd] dropWhile_digits_append [OF s nd]
        takeWhile_digits [OF f] dropWhile_digits [OF f] exponentPart_def pow10_def)
qed

subsection \<open>Parsing timestamps\<close>

lemma parseTimeString_ms:
  assumes m: "allDigits m" and s: "allDigits s" and f: "allDigits f"
    and sep: "sep = CHR ''.'' \<or> sep = CHR '',''"
  shows "parseTimeString (m @ '':'' @ s @ sep # f) =
           Fin (60 * real (digitsVal m) + real (digitsVal s) + real (digitsVal f) / 10 ^ length f)"
proof -
  let ?t = "m @ '':'' @ s @ sep # f"
  have ne: "?t \<noteq> []" using m by (simp add: allDigits_def)
  have "CHR '','' \<notin> set (m @ '':'' @ s)" "CHR '','' \<notin> set (m @ '':'' @ s @ CHR ''.'' # f)"
    using allDigits_notin m s f by auto
  then have "replace (m @ '':'' @ s @ CHR '','' # f) '','' ''.'' = m @ '':'' @ s @ CHR ''.'' # f"
    and "replace (m @ '':'' @ s @ CHR ''.'' # f) '','' ''.'' = m @ '':'' @ s @ CHR ''.'' # f"
    using replace_char_first [of "CHR '',''" "m @ '':'' @ s" f "''.''"]
          replace_char_absent [of "CHR '',''" "m @ '':'' @ s @ CHR ''.'' # f" "''.''"]
    by simp_all
  with sep have norm: "replace ?t '','' ''.'' = m @ '':'' @ s @ CHR ''.'' # f" by auto
  have "CHR '':'' \<notin> set m" "CHR '':'' \<notin> set (s @ CHR ''.'' # f)"
    using allDigits_notin m s f by auto
  then have parts: "split (m @ '':'' @ s @ CHR ''.'' # f) '':'' = [m, s @ CHR ''.'' # f]"
    using split_char_first [of "CHR '':''" m "s @ CHR ''.'' # f"]
          split_char_absent [of "CHR '':''" "s @ CHR ''.'' # f"]
    by simp
  show ?thesis
    unfolding parseTimeString_def norm parts Let_def
    using ne by (simp add: parseInt_digits [OF m] parseFloat_fraction [OF s f])
qed

lemma parseTimeString_hms:
  assumes h: "allDigits h" and m: "allDigits m" and s: "allDigits s" and f: "allDigits f"
    and sep: "sep = CHR ''.'' \<or> sep = CHR '',''"
  shows "parseTimeString (h @ '':'' @ m @ '':'' @ s @ sep # f) =
           Fin (3600 * real (digitsVal h) + 60 * real (digitsVal m) + real (digitsVal s)
                + real (digitsVal f) / 10 ^ length f)"
proof -
  let ?t = "h @ '':'' @ m @ '':'' @ s @ sep # f"
  let ?p = "h @ '':'' @ m @ '':'' @ s"
  have ne: "?t \<noteq> []" using h by (simp add: allDigits_def)
  have "CHR '','' \<notin> set ?p" "CHR '','' \<notin> set (?p @ CHR ''.'' # f)"
    using allDigits_notin h m s f by auto
  then have "replace (?p @ CHR '','' # f) '','' ''.'' = ?p @ CHR ''.'' # f"
    and "replace (?p @ CHR ''.'' # f) '','' ''.'' = ?p @ CHR ''.'' # f"
    using replace_char_first [of "CHR '',''" ?p f "''.''"]
          replace_char_absent [of "CHR '',''" "?p @ CHR ''.'' # f" "''.''"]
    by simp_all
  with sep have norm: "replace ?t '','' ''.'' = h @ '':'' @ m @ '':'' @ s @ CHR ''.'' # f" by auto
  have "CHR '':'' \<notin> set h" "CHR '':'' \<notin> set m" "CHR '':'' \<notin> set (s @ CHR ''.'' # f)"
    using allDigits_notin h m s f by auto
  then have parts: "split (h @ '':'' @ m @ '':'' @ s @ CHR ''.'' # f) '':'' = [h, m, s @ CHR ''.'' # f]"
    using split_char_first [of "CHR '':''" h "m @ '':'' @ s @ CHR ''.'' # f"]
          split_char_first [of "CHR '':''" m "s @ CHR ''.'' # f"]
          split_char_absent [of "CHR '':''" "s @ CHR ''.'' # f"]
    by simp
  show ?thesis
    unfolding parseTimeString_def norm parts Let_def
    using ne by (simp add: parseInt_digits [OF h] parseInt_digits [OF m] parseFloat_fraction [OF s f])
qed

lemmas parse_eval = parseTimeString_def parseInt_def parseFloat_def stripSign_def isWhiteSpace_def
  isDigit_def digitsVal_def digitVal_def exponentPart_def pow10_def split.simps

lemma add_NaN_right: "add a NaN = NaN"
  by (cases a) simp_all

lemma mul_NaN_left: "mul NaN b = NaN"
  by simp


text \<open>
  Claim C7. \<open>parseTimeString\<close> reads \<open>MM:SS.mmm\<close> and \<open>HH:MM:SS.mmm\<close>, with a period or a
  comma before the fraction: for digit strings \<open>h\<close>, \<open>m\<close>, \<open>s\<close>, \<open>f\<close> the first of three
  components counts as hours, the first of two as minutes, and the result is the total
  number of seconds. In particular \<open>01:02.500\<close> gives 62.5 and \<open>00:05,250\<close> gives 5.25.
\<close>

theorem parseTimeString_formats:
  assumes "allDigits h" and "allDigits m" and "allDigits s" and "allDigits f"
    and "sep = CHR ''.'' \<or> sep = CHR '',''"
  shows "parseTimeString (m @ '':'' @ s @ sep # f) =
           Fin (60 * real (digitsVal m) + real (digitsVal s) + real (digitsVal f) / 10 ^ length f)
       \<and> parseTimeString (h @ '':'' @ m @ '':'' @ s @ sep # f) =
           Fin (3600 * real (digitsVal h) + 60 * real (digitsVal m) + real (digitsVal s)
                + real (digitsVal f) / 10 ^ length f)
       \<and> parseTimeString ''01:02.500'' = Fin 62.5
       \<and> parseTimeString ''00:05,250'' = Fin 5.25"
proof -
  have "parseTimeString ''01:02.500'' = Fin 62.5" by (simp add: parse_eval)
  moreover have "parseTimeString ''00:05,250'' = Fin 5.25" by (simp add: parse_eval)
  ultimately show ?thesis
    using parseTimeString_ms [OF assms(2-5)] parseTimeString_hms [OF assms] by simp
qed

theorem parseTimeString_formats_witness:
  "allDigits ''01'' \<and> allDigits ''02'' \<and> allDigits ''03'' \<and> allDigits ''250''
   \<and> parseTimeString ''02:03,250'' = Fin 123.25
   \<and> parseTimeString ''01:02:03,250'' = Fin 3723.25"
proof -
  have d: "allDigits ''01''" "allDigits ''02''" "allDigits ''03''" "allDigits ''250''"
    by (simp_all add: allDigits_def isDigit_def)
  have v: "digitsVal ''01'' = 1" "digitsVal ''02'' = 2" "digitsVal ''03'' = 3"
    "digitsVal ''250'' = 250"
    by (simp_all add: digitsVal_def digitVal_def)
  from parseTimeString_formats [OF d disjI2 [OF refl]] d show ?thesis
    by (simp add: v)
qed

text \<open>
  Claim C4, as stated, fails: \<open>abc\<close> is not empty and its only component is not numeric,
  yet the result is 0, because a string without two or three components takes no branch.
\<close>

theorem parseTimeString_no_colon_zero:
  "''abc'' \<noteq> [] \<and> parseInt ''abc'' = NaN \<and> parseFloat ''abc'' = NaN
   \<and> parseTimeString ''abc'' = Fin 0"
  by (simp add: parse_eval)

text \<open>
  Claim C4, amended. \<open>parseTimeString\<close> returns 0 for the empty string and for every string
  that does not split on \<open>:\<close> into exactly two or three components. For a string with two
  or three components the result is \<open>NaN\<close> whenever \<open>parseInt\<close> or \<open>parseFloat\<close> finds no
  number at the start of a component.
\<close>

theorem parseTimeString_malformed:
  "parseTimeString [] = Fin 0 \<and>
   (s \<noteq> [] \<longrightarrow>
      (let parts = split (replace s '','' ''.'') '':'' in
         (length parts \<noteq> 2 \<and> length parts \<noteq> 3 \<longrightarrow> parseTimeString s = Fin 0) \<and>
         (length parts = 2 \<and> (parseInt (parts ! 0) = NaN \<or> parseFloat (parts ! 1) = NaN)
            \<longrightarrow> parseTimeString s = NaN) \<and>
         (length parts = 3 \<and> (parseInt (parts ! 0) = NaN \<or> parseInt (parts ! 1) = NaN
                               \<or> parseFloat (parts ! 2) = NaN)
            \<longrightarrow> parseTimeString s = NaN)))"
  by (auto simp: parseTimeString_def Let_def add_NaN_right)

theorem parseTimeString_malformed_witness:
  "''ab:cd'' \<noteq> [] \<and> split (replace ''ab:cd'' '','' ''.'') '':'' = [''ab'', ''cd'']
   \<and> parseInt ''ab'' = NaN \<and> parseTimeString ''ab:cd'' = NaN"
proof -
  have p: "split (replace ''ab:cd'' '','' ''.'') '':'' = [''ab'', ''cd'']"
    by (simp add: split.simps)
  have n: "parseInt ''ab'' = NaN"
    by (simp add: parseInt_def stripSign_def isWhiteSpace_def isDigit_def)
  from parseTimeString_malformed [of "''ab:cd''"] have "parseTimeString ''ab:cd'' = NaN"
    unfolding p Let_def using n by simp
  with p n show ?thesis by simp
qed

subsection \<open>Rounding to binary64\<close>

lemma searchDown_range: "e - int k \<le> searchDown k e y \<and> searchDown k e y \<le> e"
proof (induction k arbitrary: e)
  case 0
  then show ?case by simp
next
  case (Suc k)
  from Suc.IH [of "e - 1"] show ?case by auto
qed














subsection \<open>Formatting and parsing back\<close>














section \<open>Properties of the transcript interpreter\<close>

subsection \<open>Searching and slicing\<close>

lemma indexOf_char_absent: "c \<notin> set s \<Longrightarrow> indexOf s [c] = -1"
  by (induction s) auto

lemma indexOf_char_first: "c \<notin> set pre \<Longrightarrow> indexOf (pre @ c # post) [c] = int (length pre)"
  by (induction pre) (auto simp: Let_def)

lemma lastIndexOf_char_absent: "c \<notin> set s \<Longrightarrow> lastIndexOf s [c] = -1"
  by (induction s) (auto simp: Let_def)

lemma lastIndexOf_char_nonneg: "0 \<le> lastIndexOf (c # post) [c]"
  by (simp add: Let_def)

lemma lastIndexOf_char_last: "c \<notin> set post \<Longrightarrow> lastIndexOf (pre @ c # post) [c] = int (length pre)"
proof (induction pre)
  case Nil
  then show ?case by (simp add: Let_def lastIndexOf_char_absent)
next
  case (Cons a pre)
  then show ?case by (simp add: Let_def)
qed

lemma substring_middle:
  "substring (pre @ mid @ post) (int (length pre)) (int (length pre) + int (length mid)) = mid"
  by (simp add: substring_def Let_def min_def max_def)

lemma lastIndexOf_append_absent: "c \<notin> set post \<Longrightarrow> lastIndexOf (pre @ post) [c] = lastIndexOf pre [c]"
proof (induction pre)
  case Nil
  then show ?case by (cases post) (simp_all add: lastIndexOf_char_absent Let_def)
next
  case (Cons a pre)
  then show ?case by (simp add: Let_def)
qed

lemma lastIndexOf_char_less: "lastIndexOf s [c] < int (length s)"
  by (induction s) (auto simp: Let_def)

lemma sanitize_no_open:
  "CHR ''['' \<notin> set (stripFence text) \<Longrightarrow> sanitizeAndRepairJson text = ''[]''"
  by (simp add: sanitizeAndRepairJson_def Let_def indexOf_char_absent)

lemma sanitize_closed:
  assumes clean: "stripFence text = pre @ CHR ''['' # mid @ CHR '']'' # post"
    and pre: "CHR ''['' \<notin> set pre" and post: "CHR '']'' \<notin> set post"
  shows "sanitizeAndRepairJson text = CHR ''['' # mid @ '']''"
proof -
  have first: "indexOf (stripFence text) ''['' = int (length pre)"
    unfolding clean by (rule indexOf_char_first [OF pre])
  have "lastIndexOf ((pre @ CHR ''['' # mid) @ CHR '']'' # post) '']'' = int (length (pre @ CHR ''['' # mid))"
    by (rule lastIndexOf_char_last [OF post])
  then have last: "lastIndexOf (stripFence text) '']'' = int (length pre) + 1 + int (length mid)"
    unfolding clean by simp
  have "substring (pre @ (CHR ''['' # mid @ '']'') @ post) (int (length pre))
          (int (length pre) + int (length (CHR ''['' # mid @ '']''))) = CHR ''['' # mid @ '']''"
    by (rule substring_middle)
  then have sub: "substring (stripFence text) (int (length pre)) (int (length pre) + 1 + int (length mid) + 1)
      = CHR ''['' # mid @ '']''"
    unfolding clean by (simp add: add.commute add.left_commute)
  show ?thesis
    unfolding sanitizeAndRepairJson_def Let_def first last using sub by simp
qed

lemma sanitize_truncated_brace:
  assumes clean: "stripFence text = pre @ CHR ''['' # mid @ CHR ''}'' # post"
    and pre: "CHR ''['' \<notin> set pre"
    and nobr: "CHR '']'' \<notin> set mid" "CHR '']'' \<notin> set post"
    and post: "CHR ''}'' \<notin> set post"
  shows "sanitizeAndRepairJson text = CHR ''['' # mid @ ''}]''"
proof -
  have first: "indexOf (stripFence text) ''['' = int (length pre)"
    unfolding clean by (rule indexOf_char_first [OF pre])
  have "CHR '']'' \<notin> set (CHR ''['' # mid @ CHR ''}'' # post)" using nobr by simp
  then have last: "lastIndexOf (stripFence text) '']'' = lastIndexOf pre '']''"
    unfolding clean by (rule lastIndexOf_append_absent)
  have lt: "lastIndexOf pre '']'' < int (length pre)" by (rule lastIndexOf_char_less)
  have "lastIndexOf ((pre @ CHR ''['' # mid) @ CHR ''}'' # post) ''}'' = int (length (pre @ CHR ''['' # mid))"
    by (rule lastIndexOf_char_last [OF post])
  then have brace: "lastIndexOf (stripFence text) ''}'' = int (length pre) + 1 + int (length mid)"
    unfolding clean by simp
  have "substring (pre @ (CHR ''['' # mid @ ''}'') @ post) (int (length pre))
          (int (length pre) + int (length (CHR ''['' # mid @ ''}''))) = CHR ''['' # mid @ ''}''"
    by (rule substring_middle)
  then have sub: "substring (stripFence text) (int (length pre)) (int (length pre) + 1 + int (length mid) + 1)
      = CHR ''['' # mid @ ''}''"
    unfolding clean by (simp add: add.commute add.left_commute)
  show ?thesis
    unfolding sanitizeAndRepairJson_def Let_def first last brace using sub lt by simp
qed

lemma sanitize_truncated_empty:
  assumes clean: "stripFence text = pre @ CHR ''['' # rest"
    and pre: "CHR ''['' \<notin> set pre"
    and nobr: "CHR '']'' \<notin> set rest" and nobrace: "CHR ''}'' \<notin> set rest"
  shows "sanitizeAndRepairJson text = ''[]''"
proof -
  have first: "indexOf (stripFence text) ''['' = int (length pre)"
    unfolding clean by (rule indexOf_char_first [OF pre])
  have "CHR '']'' \<notin> set (CHR ''['' # rest)" using nobr by simp
  then have last: "lastIndexOf (stripFence text) '']'' = lastIndexOf pre '']''"
    unfolding clean by (rule lastIndexOf_append_absent)
  have "CHR ''}'' \<notin> set (CHR ''['' # rest)" using nobrace by simp
  then have brace: "lastIndexOf (stripFence text) ''}'' = lastIndexOf pre ''}''"
    unfolding clean by (rule lastIndexOf_append_absent)
  have lt: "lastIndexOf pre '']'' < int (length pre)" "lastIndexOf pre ''}'' < int (length pre)"
    by (rule lastIndexOf_char_less)+
  show ?thesis
    unfolding sanitizeAndRepairJson_def Let_def first last brace using lt by simp
qed

lemma sublist_trim: "sublist (trim s) s"
proof -
  have "sublist (rev (dropWhile isWhiteSpace (rev (dropWhile isWhiteSpace s)))) (dropWhile isWhiteSpace s)"
    by (simp add: sublist_rev_left)
  then show ?thesis
    unfolding trim_def using sublist_dropWhile sublist_order.order_trans by blast
qed

lemma prefix_lazyCapture: "lazyCapture r = Some m \<Longrightarrow> prefix m r"
  by (induction r arbitrary: m) (auto split: if_splits)

lemma sublist_fenceMatch: "fenceMatch s = Some m \<Longrightarrow> sublist m s"
proof -
  assume a: "fenceMatch s = Some m"
  define r1 where "r1 = drop (nat (indexOf s ''```'') + 3) s"
  define r2 where "r2 = (if prefix ''json'' r1 then drop 4 r1 else r1)"
  from a have "lazyCapture (dropWhile isWhiteSpace r2) = Some m"
    by (simp add: fenceMatch_def Let_def r1_def r2_def split: if_splits)
  then have "sublist m (dropWhile isWhiteSpace r2)"
    using prefix_lazyCapture by blast
  moreover have "sublist (dropWhile isWhiteSpace r2) r2" by simp
  moreover have "sublist r2 r1" by (simp add: r2_def)
  moreover have "sublist r1 s" by (simp add: r1_def)
  ultimately show ?thesis
    using sublist_order.order_trans by blast
qed

lemma sublist_stripFence: "sublist (stripFence text) text"
proof -
  have t: "sublist (trim text) text" by (rule sublist_trim)
  show ?thesis
  proof (cases "fenceMatch (trim text)")
    case None
    then show ?thesis by (simp add: stripFence_def Let_def t)
  next
    case (Some m)
    then have "sublist m (trim text)" by (rule sublist_fenceMatch)
    moreover have "sublist (trim m) m" by (rule sublist_trim)
    ultimately have "sublist (trim m) text"
      using t sublist_order.order_trans by blast
    with Some t show ?thesis by (simp add: stripFence_def Let_def)
  qed
qed

lemma indexOf_nonneg_iff: "0 \<le> indexOf s pat \<longleftrightarrow> sublist pat s"
proof (induction s)
  case Nil
  then show ?case by simp
next
  case (Cons c cs)
  then show ?case by (auto simp: Let_def sublist_Cons_right)
qed

lemma stripFence_no_fence: "\<not> sublist ''```'' text \<Longrightarrow> stripFence text = trim text"
proof -
  assume a: "\<not> sublist ''```'' text"
  have "\<not> sublist ''```'' (trim text)"
    using a sublist_trim sublist_order.order_trans by blast
  then show ?thesis
    by (simp add: stripFence_def includesStr_def indexOf_nonneg_iff)
qed

lemma sanitize_cases:
  "sanitizeAndRepairJson text = ''[]'' \<or>
   (\<exists>pre mid post. stripFence text = pre @ CHR ''['' # mid @ post \<and> CHR ''['' \<notin> set pre \<and>
      (sanitizeAndRepairJson text = CHR ''['' # mid \<and> mid \<noteq> [] \<and> last mid = CHR '']'' \<or>
       sanitizeAndRepairJson text = CHR ''['' # mid @ '']''))"
proof (cases "CHR ''['' \<in> set (stripFence text)")
  case False
  then show ?thesis by (simp add: sanitize_no_open)
next
  case True
  then obtain pre rest where clean: "stripFence text = pre @ CHR ''['' # rest"
    and pre: "CHR ''['' \<notin> set pre"
    using split_list_first by fastforce
  show ?thesis
  proof (cases "CHR '']'' \<in> set rest")
    case True
    then obtain mid post where rest: "rest = mid @ CHR '']'' # post" and post: "CHR '']'' \<notin> set post"
      using split_list_last by fastforce
    from sanitize_closed [OF clean [unfolded rest] pre post]
    have "sanitizeAndRepairJson text = CHR ''['' # (mid @ '']'')" by simp
    moreover have "stripFence text = pre @ CHR ''['' # (mid @ '']'') @ post"
      using clean rest by simp
    ultimately have "\<exists>pre mid post. stripFence text = pre @ CHR ''['' # mid @ post \<and> CHR ''['' \<notin> set pre \<and>
      (sanitizeAndRepairJson text = CHR ''['' # mid \<and> mid \<noteq> [] \<and> last mid = CHR '']'' \<or>
       sanitizeAndRepairJson text = CHR ''['' # mid @ '']'')"
      using pre by (intro exI [of _ pre] exI [of _ "mid @ '']''"] exI [of _ post]) simp
    then show ?thesis ..
  next
    case nobr: False
    show ?thesis
    proof (cases "CHR ''}'' \<in> set rest")
      case True
      then obtain mid post where rest: "rest = mid @ CHR ''}'' # post" and post: "CHR ''}'' \<notin> set post"
        using split_list_last by fastforce
      have "CHR '']'' \<notin> set mid" "CHR '']'' \<notin> set post" using nobr rest by simp_all
      from sanitize_truncated_brace [OF clean [unfolded rest] pre this post]
      have "sanitizeAndRepairJson text = CHR ''['' # (mid @ ''}'') @ '']''" by simp
      moreover have "stripFence text = pre @ CHR ''['' # (mid @ ''}'') @ post"
        using clean rest by simp
      ultimately have "\<exists>pre mid post. stripFence text = pre @ CHR ''['' # mid @ post \<and> CHR ''['' \<notin> set pre \<and>
        (sanitizeAndRepairJson text = CHR ''['' # mid \<and> mid \<noteq> [] \<and> last mid = CHR '']'' \<or>
         sanitizeAndRepairJson text = CHR ''['' # mid @ '']'')"
        using pre by (intro exI [of _ pre] exI [of _ "mid @ ''}''"] exI [of _ post]) simp
      then show ?thesis ..
    next
      case False
      from sanitize_truncated_empty [OF clean pre nobr False] show ?thesis by simp
    qed
  qed
qed

text \<open>
  Claim C3, as stated, fails on an input with a code fence: \<open>[```{}```\<close> holds a \<open>[\<close>, no
  \<open>]\<close>, and a \<open>}\<close> after the \<open>[\<close>, so the claim gives the payload \<open>[```{}]\<close>. The content
  of the fence, \<open>{}\<close>, replaces the text first, it holds no \<open>[\<close>, and the payload is \<open>[]\<close>.
\<close>

theorem sanitize_fence_before_brackets:
  "sanitizeAndRepairJson ''[```{}```'' = ''[]'' \<and> indexOf ''[```{}```'' ''['' = 0
   \<and> lastIndexOf ''[```{}```'' '']'' = -1 \<and> lastIndexOf ''[```{}```'' ''}'' = 5"
  by code_simp

text \<open>
  Claim C3, amended. Take the text after trimming and code-fence extraction (for an input
  without a fence marker: the trimmed input). If it holds a \<open>[\<close> and no \<open>]\<close> after the
  first \<open>[\<close>, the payload is the slice from the first \<open>[\<close> up to and including the last
  \<open>}\<close> after it, with \<open>]\<close> appended; if no \<open>}\<close> follows the \<open>[\<close>, the payload is \<open>[]\<close>.
  The truncated example of the claim gives \<open>[]\<close>, and with a closing brace it gives a
  payload that parses as a list of one record.
\<close>

theorem sanitize_truncated:
  assumes "stripFence text = pre @ CHR ''['' # rest"
    and "CHR ''['' \<notin> set pre" and "CHR '']'' \<notin> set rest"
  shows \<open>(CHR ''}'' \<notin> set rest \<longrightarrow> sanitizeAndRepairJson text = ''[]'')
     \<and> (rest = mid @ CHR ''}'' # post \<and> CHR ''}'' \<notin> set post
           \<longrightarrow> sanitizeAndRepairJson text = CHR ''['' # mid @ ''}]'')
     \<and> (\<not> sublist ''```'' t \<longrightarrow> stripFence t = trim t)
     \<and> sanitizeAndRepairJson ''[{"start":"00:01.000","end":"00:02.000","text":"hi"'' = ''[]''
     \<and> JSON_parse (sanitizeAndRepairJson ''[{"start":"00:01.000","end":"00:02.000","text":"hi"}'')
         = Some (JArr [JObj [(''start'', JStr ''00:01.000''), (''end'', JStr ''00:02.000''),
                             (''text'', JStr ''hi'')]])\<close>
proof -
  have a: "CHR ''}'' \<notin> set rest \<longrightarrow> sanitizeAndRepairJson text = ''[]''"
    using sanitize_truncated_empty [OF assms] by blast
  have b: "rest = mid @ CHR ''}'' # post \<and> CHR ''}'' \<notin> set post
           \<longrightarrow> sanitizeAndRepairJson text = CHR ''['' # mid @ ''}]''"
  proof (intro impI, elim conjE)
    assume rest: "rest = mid @ CHR ''}'' # post" and post: "CHR ''}'' \<notin> set post"
    have "CHR '']'' \<notin> set mid" "CHR '']'' \<notin> set post" using assms(3) rest by simp_all
    from sanitize_truncated_brace [OF assms(1) [unfolded rest] assms(2) this post]
    show "sanitizeAndRepairJson text = CHR ''['' # mid @ ''}]''" .
  qed
  have c: "\<not> sublist ''```'' t \<longrightarrow> stripFence t = trim t"
    using stripFence_no_fence by blast
  have d: \<open>sanitizeAndRepairJson ''[{"start":"00:01.000","end":"00:02.000","text":"hi"'' = ''[]''\<close>
    by code_simp
  have e: \<open>JSON_parse (sanitizeAndRepairJson ''[{"start":"00:01.000","end":"00:02.000","text":"hi"}'')
         = Some (JArr [JObj [(''start'', JStr ''00:01.000''), (''end'', JStr ''00:02.000''),
                             (''text'', JStr ''hi'')]])\<close>
    by code_simp
  show ?thesis using a b c d e by - (intro conjI; assumption)
qed

theorem sanitize_truncated_witness:
  "stripFence '' x [{y}, {z} w '' = ''x '' @ CHR ''['' # ''{y}, {z} w''
   \<and> CHR ''['' \<notin> set ''x '' \<and> CHR '']'' \<notin> set ''{y}, {z} w''
   \<and> CHR ''}'' \<notin> set '' w''
   \<and> sanitizeAndRepairJson '' x [{y}, {z} w '' = ''[{y}, {z}]''"
proof -
  have s: "stripFence '' x [{y}, {z} w '' = ''x '' @ CHR ''['' # ''{y}, {z} w''"
    by code_simp
  have p: "CHR ''['' \<notin> set ''x ''" "CHR '']'' \<notin> set ''{y}, {z} w''" by simp_all
  have r: "''{y}, {z} w'' = ''{y}, {z'' @ CHR ''}'' # '' w'' \<and> CHR ''}'' \<notin> set '' w''" by simp
  have k: "''{y}, {z} w'' = ''{y}, {z'' @ CHR ''}'' # '' w'' \<and> CHR ''}'' \<notin> set '' w''
           \<longrightarrow> sanitizeAndRepairJson '' x [{y}, {z} w '' = CHR ''['' # ''{y}, {z'' @ ''}]''"
    by (rule conjunct1 [OF conjunct2 [OF sanitize_truncated [OF s p]]])
  have "sanitizeAndRepairJson '' x [{y}, {z} w '' = CHR ''['' # ''{y}, {z'' @ ''}]''"
    by (rule mp [OF k r])
  then have v: "sanitizeAndRepairJson '' x [{y}, {z} w '' = ''[{y}, {z}]''" by simp
  show ?thesis using s p conjunct2 [OF r] v by - (intro conjI; assumption)
qed

text \<open>
  Claim C10, as stated, fails on an input with a code fence after a first bracket:
  for \<open>[x] ```[1]```\<close> the result is \<open>[1]\<close>, which is neither \<open>[]\<close> nor a slice of the input
  that starts at the first \<open>[\<close> of the input (index 0), with or without an appended \<open>]\<close>.
\<close>

theorem sanitize_fence_not_first_bracket:
  "sanitizeAndRepairJson ''[x] ```[1]```'' = ''[1]'' \<and> indexOf ''[x] ```[1]```'' ''['' = 0
   \<and> \<not> prefix ''[1]'' ''[x] ```[1]```'' \<and> \<not> prefix ''[1'' ''[x] ```[1]```''"
  by code_simp

text \<open>
  Claim C10, amended. For every input, the result of \<open>sanitizeAndRepairJson\<close> begins with
  \<open>[\<close> and ends with \<open>]\<close>. It is either the literal \<open>[]\<close> or a slice of the cleaned text
  (the input after trimming and code-fence extraction, itself a contiguous part of the
  input) that starts at the first \<open>[\<close> of the cleaned text, with a \<open>]\<close> appended when the
  slice does not end with one.
\<close>

theorem sanitize_bracket_delimited:
  "hd (sanitizeAndRepairJson text) = CHR ''['' \<and> last (sanitizeAndRepairJson text) = CHR '']''
   \<and> 2 \<le> length (sanitizeAndRepairJson text)
   \<and> sublist (stripFence text) text
   \<and> (sanitizeAndRepairJson text = ''[]'' \<or>
      (\<exists>pre mid post. stripFence text = pre @ CHR ''['' # mid @ post \<and> CHR ''['' \<notin> set pre \<and>
         (sanitizeAndRepairJson text = CHR ''['' # mid \<or>
          sanitizeAndRepairJson text = CHR ''['' # mid @ '']'')))"
proof -
  from sanitize_cases [of "text"]
  have shape: "hd (sanitizeAndRepairJson text) = CHR ''['' \<and> last (sanitizeAndRepairJson text) = CHR '']''
      \<and> 2 \<le> length (sanitizeAndRepairJson text)"
    by (elim disjE exE conjE) (simp_all add: Suc_le_eq)
  from sanitize_cases [of "text"]
  have slice: "sanitizeAndRepairJson text = ''[]'' \<or>
      (\<exists>pre mid post. stripFence text = pre @ CHR ''['' # mid @ post \<and> CHR ''['' \<notin> set pre \<and>
         (sanitizeAndRepairJson text = CHR ''['' # mid \<or>
          sanitizeAndRepairJson text = CHR ''['' # mid @ '']''))"
    by blast
  from shape slice sublist_stripFence [of "text"] show ?thesis by simp
qed

subsection \<open>Errors of \<open>generateSubtitles\<close>\<close>

lemma parseItems_empty:
  "JSON_parse jsonText = Some (JArr []) \<Longrightarrow> parseItems ids jsonText = Inl (Error ''No speech detected.'')"
  by (simp add: parseItems_def getLength_def)

lemma generateSubtitles_errors:
  "generateSubtitles ids apiKey (Inr rawText) = Inl e \<Longrightarrow>
     e = Error ''API Key is missing.'' \<or> e = Error ''The AI model returned an empty response.''
     \<or> e = Error ''Failed to parse AI response. The file might be too complex or contain noise.''"
  by (auto simp: generateSubtitles_def Let_def split: if_splits sum.splits)

text \<open>
  Claim C1 does not hold of the code. When the recovered payload parses as a list with
  zero records, the inner \<open>try\<close> throws the error \<open>No speech detected.\<close>, but the \<open>catch\<close>
  of the same \<open>try\<close> replaces it: \<open>generateSubtitles\<close> fails with the parse-failure
  message, and with a response text it never fails with \<open>No speech detected.\<close>
\<close>

theorem generateSubtitles_empty_list:
  assumes "apiKey \<noteq> []" and "rawText \<noteq> []"
    and "JSON_parse (sanitizeAndRepairJson rawText) = Some (JArr [])"
  shows "parseItems ids (sanitizeAndRepairJson rawText) = Inl (Error ''No speech detected.'')
       \<and> generateSubtitles ids apiKey (Inr rawText) =
           Inl (Error ''Failed to parse AI response. The file might be too complex or contain noise.'')
       \<and> generateSubtitles ids apiKey' (Inr rawText') \<noteq> Inl (Error ''No speech detected.'')"
proof -
  have a: "parseItems ids (sanitizeAndRepairJson rawText) = Inl (Error ''No speech detected.'')"
    by (rule parseItems_empty [OF assms(3)])
  then have b: "generateSubtitles ids apiKey (Inr rawText) =
      Inl (Error ''Failed to parse AI response. The file might be too complex or contain noise.'')"
    using assms(1,2) by (simp add: generateSubtitles_def Let_def)
  have c: "generateSubtitles ids apiKey' (Inr rawText') \<noteq> Inl (Error ''No speech detected.'')"
    using generateSubtitles_errors [of ids apiKey' rawText' "Error ''No speech detected.''"]
    by auto
  show ?thesis by (intro conjI a b c)
qed

theorem generateSubtitles_empty_list_witness:
  "''key'' \<noteq> [] \<and> ''[]'' \<noteq> [] \<and> JSON_parse (sanitizeAndRepairJson ''[]'') = Some (JArr [])
   \<and> generateSubtitles (\<lambda>k. natToString k) ''key'' (Inr ''[]'') =
       Inl (Error ''Failed to parse AI response. The file might be too complex or contain noise.'')"
proof -
  have p: "JSON_parse (sanitizeAndRepairJson ''[]'') = Some (JArr [])" by code_simp
  have k: "''key'' \<noteq> []" "''[]'' \<noteq> []" by simp_all
  from generateSubtitles_empty_list [OF k p, of "\<lambda>k. natToString k"]
  have "generateSubtitles (\<lambda>k. natToString k) ''key'' (Inr ''[]'') =
       Inl (Error ''Failed to parse AI response. The file might be too complex or contain noise.'')"
    by (rule conjunct1 [OF conjunct2])
  with p k show ?thesis by simp
qed

section \<open>Properties of the audio normalizer\<close>

subsection \<open>Quantization\<close>

lemma trunc_bounds_neg: "- 32768 \<le> x \<Longrightarrow> x < 0 \<Longrightarrow> - 32768 \<le> trunc x \<and> trunc x \<le> 0"
  by (simp add: trunc_def le_ceiling_iff ceiling_le_iff)

lemma trunc_bounds_pos: "0 \<le> x \<Longrightarrow> x \<le> 32767 \<Longrightarrow> 0 \<le> trunc x \<and> trunc x \<le> 32767"
  by (simp add: trunc_def le_floor_iff floor_le_iff)

lemma sint_toInt16: "- 32768 \<le> k \<Longrightarrow> k \<le> 32767 \<Longrightarrow> sint (word_of_int k :: 16 word) = k"
  by (simp add: sint_sbintrunc' signed_take_bit_int_eq_self)

lemma sampleValue_Fin:
  "sampleValue (Fin f) =
     (let s = max (- 1) (min 1 f) in Fin (if s < 0 then s * 32768 else s * 32767))"
  by (simp add: sampleValue_def Math_max_def Math_min_def Let_def max_def min_def)

lemma sampleValue_range:
  "\<exists>v. sampleValue (Fin f) = Fin v \<and> - 32768 \<le> trunc v \<and> trunc v \<le> 32767"
proof -
  define s where "s = max (- 1) (min 1 f)"
  have s: "- 1 \<le> s" "s \<le> 1" by (simp_all add: s_def)
  show ?thesis
  proof (cases "s < 0")
    case True
    then have v: "sampleValue (Fin f) = Fin (s * 32768)"
      by (simp add: sampleValue_Fin s_def [symmetric])
    have "- 32768 \<le> s * 32768" "s * 32768 < 0" using s True by simp_all
    from trunc_bounds_neg [OF this] v show ?thesis by auto
  next
    case False
    then have v: "sampleValue (Fin f) = Fin (s * 32767)"
      by (simp add: sampleValue_Fin s_def [symmetric])
    have "0 \<le> s * 32767" "s * 32767 \<le> 32767" using s False by simp_all
    from trunc_bounds_pos [OF this] v show ?thesis by auto
  qed
qed

text \<open>
  Claim C8. For every finite sample \<open>f\<close> the value written is the truncation of
  \<open>s * 32768\<close> when \<open>s < 0\<close> and of \<open>s * 32767\<close> otherwise, where \<open>s\<close> is \<open>f\<close> clamped to
  \<open>[-1, 1]\<close>; it lies in the signed 16-bit range, so the conversion to 16 bits never wraps.
  The infinities clamp to the two ends of the range, and \<open>NaN\<close> is written as 0. The value
  is a function of the sample alone: no dithering.
\<close>

theorem quantize_sample:
  "sint (toInt16 (sampleValue (Fin f))) =
     (let s = max (- 1) (min 1 f) in trunc (if s < 0 then s * 32768 else s * 32767))
   \<and> - 32768 \<le> sint (toInt16 (sampleValue (Fin f)))
   \<and> sint (toInt16 (sampleValue (Fin f))) \<le> 32767
   \<and> sint (toInt16 (sampleValue PInf)) = 32767
   \<and> sint (toInt16 (sampleValue NInf)) = - 32768
   \<and> sint (toInt16 (sampleValue NaN)) = 0"
proof -
  obtain v where v: "sampleValue (Fin f) = Fin v" and r: "- 32768 \<le> trunc v" "trunc v \<le> 32767"
    using sampleValue_range by blast
  have e: "sint (toInt16 (sampleValue (Fin f))) = trunc v"
    by (simp add: v toInt16_def sint_toInt16 [OF r])
  have "Fin v = (let s = max (- 1) (min 1 f) in Fin (if s < 0 then s * 32768 else s * 32767))"
    using v sampleValue_Fin [of f] by simp
  then have "trunc v = (let s = max (- 1) (min 1 f) in trunc (if s < 0 then s * 32768 else s * 32767))"
    by (simp add: Let_def)
  moreover have "sint (toInt16 (sampleValue PInf)) = 32767"
    by (simp add: sampleValue_def Math_max_def Math_min_def toInt16_def trunc_def)
  moreover have "sint (toInt16 (sampleValue NInf)) = - 32768"
    by (simp add: sampleValue_def Math_max_def Math_min_def toInt16_def trunc_def)
  moreover have "sint (toInt16 (sampleValue NaN)) = 0"
    by (simp add: sampleValue_def Math_max_def Math_min_def toInt16_def)
  ultimately show ?thesis using e r by simp
qed

subsection \<open>The header\<close>

lemma setUint8_append:
  "off + 1 \<le> length h \<Longrightarrow> setUint8 off v (h @ t) = Some (h[off := word_of_int v] @ t)"
  by (simp add: setUint8_def list_update_append)

lemma setUint16_append:
  "off + 2 \<le> length h \<Longrightarrow>
   setUint16 off v (h @ t) = Some (h[off := word_of_int v, off + 1 := word_of_int (v div 256)] @ t)"
  by (simp add: setUint16_def list_update_append)

lemma setUint32_append:
  "off + 4 \<le> length h \<Longrightarrow>
   setUint32 off v (h @ t) =
     Some (h[off := word_of_int v, off + 1 := word_of_int (v div 256),
             off + 2 := word_of_int (v div 65536), off + 3 := word_of_int (v div 16777216)] @ t)"
  by (simp add: setUint32_def list_update_append)






subsection \<open>The payload\<close>








subsection \<open>The container\<close>






section \<open>Properties of the subtitle file codec\<close>

subsection \<open>Reading blocks\<close>

lemma parseSrtBlock_eq:
  "parseSrtBlock ids segments block =
     (if blockAccepted block
      then segments @ [\<lparr>id_seg = ids (length segments),
                        startTime = fst (blockRecord block),
                        endTime = fst (snd (blockRecord block)),
                        text_seg = snd (snd (blockRecord block))\<rparr>]
      else segments)"
  by (auto simp: parseSrtBlock_def blockAccepted_def blockRecord_def blockLines_def blockTimes_def
      Let_def nthOpt_def truthyStr_def)

lemma foldl_parseSrtBlock_fields:
  "map segmentFields (foldl (parseSrtBlock ids) acc blocks) =
     map segmentFields acc @ map blockRecord (filter blockAccepted blocks)"
proof (induction blocks arbitrary: acc)
  case Nil
  then show ?case by simp
next
  case (Cons b blocks)
  have step: "map segmentFields (parseSrtBlock ids acc b) =
      map segmentFields acc @ map blockRecord (filter blockAccepted [b])"
    by (simp add: parseSrtBlock_eq [of ids acc b] segmentFields_def)
  have "map segmentFields (foldl (parseSrtBlock ids) acc (b # blocks)) =
      map segmentFields (parseSrtBlock ids acc b) @ map blockRecord (filter blockAccepted blocks)"
    using Cons.IH [of "parseSrtBlock ids acc b"] by simp
  also have "\<dots> = map segmentFields acc @ map blockRecord (filter blockAccepted (b # blocks))"
    unfolding step by simp
  finally show ?case .
qed

lemma foldl_parseSrtBlock_ids:
  "map id_seg acc = map ids [0..<length acc] \<Longrightarrow>
   map id_seg (foldl (parseSrtBlock ids) acc blocks) =
     map ids [0..<length (foldl (parseSrtBlock ids) acc blocks)]"
proof (induction blocks arbitrary: acc)
  case Nil
  then show ?case by simp
next
  case (Cons b blocks)
  have "map id_seg (parseSrtBlock ids acc b) = map ids [0..<length (parseSrtBlock ids acc b)]"
    using Cons.prems by (simp add: parseSrtBlock_eq [of ids acc b])
  from Cons.IH [OF this] show ?case by simp
qed

lemma parseSrt_fields:
  "map segmentFields (parseSrt ids srtContent) =
     map blockRecord (filter blockAccepted (split (replaceCR (replaceCRLF srtContent)) [LF, LF]))"
  by (simp add: parseSrt_def Let_def foldl_parseSrtBlock_fields)

lemma parseSrt_ids:
  "map id_seg (parseSrt ids srtContent) = map ids [0..<length (parseSrt ids srtContent)]"
  unfolding parseSrt_def Let_def by (rule foldl_parseSrtBlock_ids) simp

text \<open>
  Claim C9, as stated, fails: a block of three lines whose second line does not contain the
  arrow gives no record. The input \<open>1\<close>, \<open>foo\<close>, \<open>bar\<close> on three lines is one block of
  three lines, and \<open>parseSrt\<close> returns the empty list for it.
\<close>

theorem parseSrt_skips_block_without_arrow:
  "length (blockLines (''1'' @ [LF] @ ''foo'' @ [LF] @ ''bar'')) = 3
   \<and> split (replaceCR (replaceCRLF (''1'' @ [LF] @ ''foo'' @ [LF] @ ''bar''))) [LF, LF]
       = [''1'' @ [LF] @ ''foo'' @ [LF] @ ''bar'']
   \<and> parseSrt natToString (''1'' @ [LF] @ ''foo'' @ [LF] @ ''bar'') = []"
  by code_simp

text \<open>
  Claim C9, amended. For every input string, \<open>parseSrt\<close> normalises the line endings,
  splits on blank-line boundaries, and gives one record, in order, for each block that has
  at least three lines after trimming and whose second line, split on the arrow, has a
  non-empty first and a non-empty second part: the times of the record are
  \<open>parseTimeString\<close> of these two parts and its text is the lines from the third on joined
  with spaces. The \<open>k\<close>-th record gets the \<open>k\<close>-th identifier drawn from the supply, so the
  identifiers are distinct when the supply never repeats. Every other block, in particular
  every block with fewer than three lines, is skipped; \<open>parseSrt\<close> is total, so no input
  raises an error.
\<close>

theorem parseSrt_blocks:
  "map segmentFields (parseSrt ids srtContent) =
     map blockRecord (filter blockAccepted (split (replaceCR (replaceCRLF srtContent)) [LF, LF]))
   \<and> map id_seg (parseSrt ids srtContent) = map ids [0..<length (parseSrt ids srtContent)]
   \<and> (inj ids \<longrightarrow> distinct (map id_seg (parseSrt ids srtContent)))
   \<and> (length (blockLines block) < 3 \<longrightarrow> \<not> blockAccepted block)"
proof -
  have "inj ids \<longrightarrow> distinct (map id_seg (parseSrt ids srtContent))"
    by (simp add: parseSrt_ids [of ids srtContent] distinct_map inj_on_def inj_def)
  moreover have "length (blockLines block) < 3 \<longrightarrow> \<not> blockAccepted block"
    by (simp add: blockAccepted_def)
  ultimately show ?thesis
    using parseSrt_fields [of ids srtContent] parseSrt_ids [of ids srtContent]
    by - (intro conjI; assumption)
qed

theorem parseSrt_blocks_witness:
  "inj (\<lambda>k. replicate k (CHR ''u''))
   \<and> length (blockLines ''x'') < 3
   \<and> \<not> blockAccepted ''x''
   \<and> distinct (map id_seg (parseSrt (\<lambda>k. replicate k (CHR ''u''))
         (''1'' @ [LF] @ ''00:00:01,000 --> 00:00:02,500'' @ [LF] @ ''a'' @ [LF] @ ''b'' @ [LF, LF] @ ''x'')))
   \<and> map segmentFields (parseSrt (\<lambda>k. replicate k (CHR ''u''))
         (''1'' @ [LF] @ ''00:00:01,000 --> 00:00:02,500'' @ [LF] @ ''a'' @ [LF] @ ''b'' @ [LF, LF] @ ''x''))
       = [(Fin 1, Fin (5 / 2), ''a b'')]"
proof -
  let ?ids = "\<lambda>k. replicate k (CHR ''u'')"
  let ?s = "''1'' @ [LF] @ ''00:00:01,000 --> 00:00:02,500'' @ [LF] @ ''a'' @ [LF] @ ''b'' @ [LF, LF] @ ''x''"
  have i: "inj ?ids"
  proof (rule injI)
    fix j k :: nat
    assume "replicate j (CHR ''u'') = replicate k (CHR ''u'')"
    then have "length (replicate j (CHR ''u'')) = length (replicate k (CHR ''u''))"
      by (rule arg_cong)
    then show "j = k" by simp
  qed
  have l: "length (blockLines ''x'') < 3" by code_simp
  have e: "map blockRecord (filter blockAccepted (split (replaceCR (replaceCRLF ?s)) [LF, LF]))
      = [(Fin 1, Fin (5 / 2), ''a b'')]"
    by code_simp
  note th = parseSrt_blocks [of ?ids ?s "''x''"]
  have f: "map segmentFields (parseSrt ?ids ?s) = [(Fin 1, Fin (5 / 2), ''a b'')]"
    using th [THEN conjunct1] e by (rule trans)
  have d: "distinct (map id_seg (parseSrt ?ids ?s))"
    by (rule mp [OF th [THEN conjunct2, THEN conjunct2, THEN conjunct1] i])
  have n: "\<not> blockAccepted ''x''"
    by (rule mp [OF th [THEN conjunct2, THEN conjunct2, THEN conjunct2] l])
  from i l n d f show ?thesis by - (intro conjI; assumption)
qed

subsection \<open>Splitting what \<open>generateSrt\<close> wrote\<close>
















lemma set_join: "set (join xs sep) \<subseteq> (\<Union>x \<in> set xs. set x) \<union> set sep"
  by (induction xs sep rule: join.induct) auto















subsection \<open>Writing and reading back\<close>









end
